theory Spec2Isabelle
  imports Complex_Main
begin

section \<open>ESG document indexing pipeline (add_documents_to_index.py)\<close>

text \<open>
  A shallow embedding of the ingestion script: the chunker \<open>chunk_text\<close>, the embedding
  wrapper \<open>get_embeddings\<close>, the filename classifier \<open>get_esg_metadata\<close> and the driver
  \<open>main\<close> with its per-file chunk loop and its batch upload loop.

  External collaborators are parameters: the tokenizer (tiktoken), the MD5 digest
  (hashlib), the PDF reader, the file system, the clock, the embedding service and the
  index upload service. Python strings are modelled as \<open>string\<close> restricted to ASCII, so
  \<open>lower\<close>, \<open>title\<close>, \<open>split\<close>, \<open>strip\<close> and the pattern \<open>\d\<close> act on ASCII letters, digits
  and white space only.
\<close>

subsection \<open>Exceptions and console output\<close>

datatype exn = Exception string

text \<open>The messages the script prints, one constructor per \<open>print\<close> that carries data.\<close>

datatype msg =
    ChunkingText int int
  | TotalTokens nat
  | FitsSingleChunk nat
  | CreatedChunksProgress nat int nat
  | HitChunkLimit nat
  | CreatedChunksTotal nat
  | ErrorChunking exn

subsection \<open>Python list slicing\<close>

text \<open>
  \<open>xs[start:end]\<close>: a negative bound counts from the end of the list, and both bounds
  are clamped to the list.
\<close>

definition py_bound :: "nat \<Rightarrow> int \<Rightarrow> nat" where
  "py_bound n i = (if i < 0 then nat (max (i + int n) 0) else min (nat i) n)"

definition py_slice :: "'a list \<Rightarrow> int \<Rightarrow> int \<Rightarrow> 'a list" where
  "py_slice xs start end =
     (let s = py_bound (length xs) start; e = py_bound (length xs) end
      in take (e - s) (drop s xs))"

subsection \<open>The chunker\<close>

text \<open>
  The tokenizer of \<open>tiktoken.encoding_for_model("gpt-4")\<close>. Obtaining the encoding and
  encoding the text is one fallible step; decoding a token slice is another.
\<close>

record 'tok tokenizer =
  encode :: "string \<Rightarrow> exn + 'tok list"
  decode :: "'tok list \<Rightarrow> exn + string"

definition max_chunks :: nat where
  "max_chunks = 1000"

text \<open>The variables of the \<open>while\<close> loop, with the console output so far.\<close>

record loop_state =
  chunks :: "string list"
  start :: int
  chunk_num :: nat
  out :: "msg list"

text \<open>
  The loop of lines 80 to 94. An exception of \<open>decode\<close> leaves the loop with what was
  printed before it. The \<open>break\<close> is the \<open>Inr\<close> of the inner \<open>if\<close>.
\<close>

function chunk_loop ::
  "'tok tokenizer \<Rightarrow> 'tok list \<Rightarrow> int \<Rightarrow> int \<Rightarrow> loop_state \<Rightarrow> (exn \<times> msg list) + loop_state"
where
  "chunk_loop tk tokens max_tokens overlap st =
     (if start st < int (length tokens) \<and> chunk_num st < max_chunks then
        (let end = min (start st + max_tokens) (int (length tokens));
             chunk_tokens = py_slice tokens (start st) end
         in case decode tk chunk_tokens of
              Inl e \<Rightarrow> Inl (e, out st)
            | Inr chunk \<Rightarrow>
                (let n = chunk_num st + 1;
                     st' = \<lparr>chunks = chunks st @ [chunk],
                            start = end - overlap,
                            chunk_num = n,
                            out = (if n mod 25 = 0
                                   then out st @ [CreatedChunksProgress n (start st) (length tokens)]
                                   else out st)\<rparr>
                 in if start st' \<ge> int (length tokens) then Inr st'
                    else chunk_loop tk tokens max_tokens overlap st'))
      else Inr st)"
  by pat_completeness auto
termination
  by (relation "measure (\<lambda>(tk, tokens, max_tokens, overlap, st). max_chunks - chunk_num st)")
     auto

declare chunk_loop.simps [simp del]

text \<open>The body of the \<open>try\<close> block of \<open>chunk_text\<close>: the chunks and the output, or the exception.\<close>

definition chunk_body ::
  "'tok tokenizer \<Rightarrow> string \<Rightarrow> int \<Rightarrow> int \<Rightarrow> (exn \<times> msg list) + (string list \<times> msg list)"
where
  "chunk_body tk text max_tokens overlap =
     (case encode tk text of
        Inl e \<Rightarrow> Inl (e, [])
      | Inr tokens \<Rightarrow>
          (let o1 = [TotalTokens (length tokens)] in
           if int (length tokens) \<le> max_tokens
           then Inr ([text], o1 @ [FitsSingleChunk (length tokens)])
           else
             (case chunk_loop tk tokens max_tokens overlap
                     \<lparr>chunks = [], start = 0, chunk_num = 0, out = o1\<rparr> of
                Inl err \<Rightarrow> Inl err
              | Inr st \<Rightarrow>
                  Inr (chunks st,
                       (if chunk_num st \<ge> max_chunks
                        then out st @ [HitChunkLimit max_chunks] else out st)
                       @ [CreatedChunksTotal (length (chunks st))]))))"

text \<open>\<open>chunk_text\<close> returns the chunks; the second component is what it printed.\<close>

definition chunk_text :: "'tok tokenizer \<Rightarrow> string \<Rightarrow> int \<Rightarrow> int \<Rightarrow> string list \<times> msg list" where
  "chunk_text tk text max_tokens overlap =
     (case chunk_body tk text max_tokens overlap of
        Inl (e, printed) \<Rightarrow> ([text], ChunkingText max_tokens overlap # printed @ [ErrorChunking e])
      | Inr (cs, printed) \<Rightarrow> (cs, ChunkingText max_tokens overlap # printed))"

text \<open>A tokenizer for concrete runs: every character is one token, nothing fails.\<close>

definition char_tokenizer :: "char tokenizer" where
  "char_tokenizer = \<lparr>encode = Inr, decode = Inr\<rparr>"

subsection \<open>ASCII string operations of the Python runtime\<close>

definition ascii_uppercase :: string where
  "ascii_uppercase = ''ABCDEFGHIJKLMNOPQRSTUVWXYZ''"

definition ascii_lowercase :: string where
  "ascii_lowercase = ''abcdefghijklmnopqrstuvwxyz''"

definition digits :: string where
  "digits = ''0123456789''"

definition is_upper :: "char \<Rightarrow> bool" where
  "is_upper c = (c \<in> set ascii_uppercase)"

definition is_lower :: "char \<Rightarrow> bool" where
  "is_lower c = (c \<in> set ascii_lowercase)"

definition is_digit :: "char \<Rightarrow> bool" where
  "is_digit c = (c \<in> set digits)"

definition is_space :: "char \<Rightarrow> bool" where
  "is_space c = ((of_char c :: nat) \<in> {9, 10, 11, 12, 13, 28, 29, 30, 31, 32, 133, 160})"

definition lower_char :: "char \<Rightarrow> char" where
  "lower_char c = (case map_of (zip ascii_uppercase ascii_lowercase) c of None \<Rightarrow> c | Some l \<Rightarrow> l)"

definition upper_char :: "char \<Rightarrow> char" where
  "upper_char c = (case map_of (zip ascii_lowercase ascii_uppercase) c of None \<Rightarrow> c | Some u \<Rightarrow> u)"

text \<open>\<open>s.lower()\<close>\<close>

definition lower :: "string \<Rightarrow> string" where
  "lower s = map lower_char s"

text \<open>\<open>s.title()\<close>: a letter that follows a letter is lowered, any other letter is raised.\<close>

fun title_from :: "bool \<Rightarrow> string \<Rightarrow> string" where
  "title_from after_letter [] = []"
| "title_from after_letter (c # cs) =
     (if is_upper c \<or> is_lower c
      then (if after_letter then lower_char c else upper_char c) # title_from True cs
      else c # title_from False cs)"

definition title :: "string \<Rightarrow> string" where
  "title s = title_from False s"

text \<open>\<open>needle in haystack\<close> on strings.\<close>

fun starts_with :: "string \<Rightarrow> string \<Rightarrow> bool" where
  "starts_with s [] = True"
| "starts_with [] (p # ps) = False"
| "starts_with (c # cs) (p # ps) = (c = p \<and> starts_with cs ps)"

fun py_in :: "string \<Rightarrow> string \<Rightarrow> bool" where
  "py_in needle [] = (needle = [])"
| "py_in needle (c # cs) = (starts_with (c # cs) needle \<or> py_in needle cs)"

text \<open>\<open>re.search(r'20\d{2}', s)\<close>: the leftmost match, if there is one.\<close>

fun re_search_year :: "string \<Rightarrow> string option" where
  "re_search_year (a # b # c # d # rest) =
     (if a = CHR ''2'' \<and> b = CHR ''0'' \<and> is_digit c \<and> is_digit d
      then Some [a, b, c, d]
      else re_search_year (b # c # d # rest))"
| "re_search_year s = None"

text \<open>\<open>int(s)\<close> on a string of decimal digits.\<close>

definition py_int :: "string \<Rightarrow> int" where
  "py_int s = foldl (\<lambda>acc c. 10 * acc + (int (of_char c) - 48)) 0 s"

text \<open>\<open>str(n)\<close> for a natural number, as an f-string formats it.\<close>

fun str_nat :: "nat \<Rightarrow> string" where
  "str_nat n =
     (if n < 10 then [digits ! n]
      else str_nat (n div 10) @ [digits ! (n mod 10)])"

declare str_nat.simps [simp del]

text \<open>
  \<open>s.split()\<close> and \<open>s.strip()\<close> on white space; \<open>is_space\<close> holds of the code points below
  256 that \<open>str.isspace\<close> accepts.
\<close>

fun split_from :: "string \<Rightarrow> string \<Rightarrow> string list" where
  "split_from cur [] = (if cur = [] then [] else [cur])"
| "split_from cur (c # cs) =
     (if is_space c
      then (if cur = [] then split_from [] cs else cur # split_from [] cs)
      else split_from (cur @ [c]) cs)"

definition py_split :: "string \<Rightarrow> string list" where
  "py_split s = split_from [] s"

definition strip :: "string \<Rightarrow> string" where
  "strip s = rev (dropWhile is_space (rev (dropWhile is_space s)))"

subsection \<open>Files and text extraction\<close>

text \<open>A \<open>pathlib.Path\<close>: its \<open>name\<close> and its \<open>str()\<close>.\<close>

record path =
  name :: string
  path_str :: string

text \<open>
  \<open>extract_pdf_content\<close>. The reader opens the file or raises; each page yields its text
  or raises. An empty page text is skipped, a page that raises is skipped with a warning.
\<close>

fun pages_loop :: "(exn + string) list \<Rightarrow> string \<Rightarrow> string" where
  "pages_loop [] text = text"
| "pages_loop (Inr page_text # pages) text =
     pages_loop pages (if page_text \<noteq> [] then text @ page_text @ [CHR 0x0A] else text)"
| "pages_loop (Inl e # pages) text = pages_loop pages text"

definition extract_pdf_content :: "(path \<Rightarrow> exn + (exn + string) list) \<Rightarrow> path \<Rightarrow> string" where
  "extract_pdf_content reader pdf_path =
     (case reader pdf_path of
        Inl e \<Rightarrow> []
      | Inr pages \<Rightarrow> if length pages = 0 then [] else strip (pages_loop pages []))"

subsection \<open>The embedding wrapper\<close>

text \<open>The client call is \<open>openai_client.embeddings.create(input=text, model=model)\<close>.\<close>

definition get_embeddings :: "string \<Rightarrow> (string \<Rightarrow> string \<Rightarrow> exn + 'v list) \<Rightarrow> string \<Rightarrow> 'v list" where
  "get_embeddings text openai_client model =
     (case openai_client text model of
        Inl e \<Rightarrow> []
      | Inr embedding \<Rightarrow> embedding)"

subsection \<open>The filename classifier\<close>

record metadata =
  institution :: string
  document_type :: string
  year :: int
  tags :: string

definition companies :: "string list" where
  "companies = [''microsoft'', ''apple'', ''google'', ''amazon'', ''tesla'', ''nvidia'', ''meta'']"

text \<open>The \<open>if\<close>/\<open>elif\<close> chain of lines 133 to 169, in the source's order.\<close>

definition classify_rules :: "string \<Rightarrow> metadata \<Rightarrow> metadata" where
  "classify_rules filename m =
     (if py_in ''gri'' filename then
        m\<lparr>institution := ''Global Reporting Initiative'',
          document_type := ''GRI Standards'',
          tags := ''gri,standards,sustainability,reporting''\<rparr>
      else if py_in ''sasb'' filename then
        m\<lparr>institution := ''Sustainability Accounting Standards Board'',
          document_type := ''SASB Standards'',
          tags := ''sasb,standards,sustainability,accounting''\<rparr>
      else if py_in ''tcfd'' filename then
        m\<lparr>institution := ''Task Force on Climate-related Financial Disclosures'',
          document_type := ''TCFD Framework'',
          tags := ''tcfd,climate,risk,disclosure''\<rparr>
      else if list_ex (\<lambda>company. py_in company filename) companies then
        (let m1 = (case find (\<lambda>company. py_in company filename) companies of
                     None \<Rightarrow> m
                   | Some company \<Rightarrow> m\<lparr>institution := title company\<rparr>)
         in if py_in ''sustainability'' filename \<or> py_in ''esg'' filename then
              m1\<lparr>document_type := ''Corporate ESG Report'',
                 tags := ''corporate,esg,sustainability,report''\<rparr>
            else if py_in ''climate'' filename then
              m1\<lparr>document_type := ''Climate Report'',
                 tags := ''climate,corporate,environmental''\<rparr>
            else m1)
      else if list_ex (\<lambda>term. py_in term filename) [''climate'', ''carbon'', ''environment'', ''green''] then
        m\<lparr>document_type := ''Environmental Report'',
          tags := ''environmental,climate,carbon,green''\<rparr>
      else if list_ex (\<lambda>term. py_in term filename) [''diversity'', ''social'', ''inclusion'', ''community''] then
        m\<lparr>document_type := ''Social Impact Report'',
          tags := ''social,diversity,inclusion,community''\<rparr>
      else if list_ex (\<lambda>term. py_in term filename) [''governance'', ''board'', ''ethics'', ''compliance''] then
        m\<lparr>document_type := ''Governance Report'',
          tags := ''governance,ethics,compliance,board''\<rparr>
      else m)"

definition get_esg_metadata :: "path \<Rightarrow> metadata" where
  "get_esg_metadata file_path =
     (let filename = lower (name file_path);
          m0 = \<lparr>institution = ''Unknown'', document_type = ''ESG Document'',
                year = 2024, tags = ''esg,sustainability''\<rparr>;
          m1 = classify_rules filename m0
      in case re_search_year filename of
           None \<Rightarrow> m1
         | Some year_match \<Rightarrow> m1\<lparr>year := py_int year_match\<rparr>)"

subsection \<open>Environment, clients and the record sent to the index\<close>

text \<open>\<open>os.getenv(var)\<close> is a lookup; \<open>os.getenv(var, default)\<close> gives the default for an unset variable only.\<close>

definition getenv_default :: "(string \<rightharpoonup> string) \<Rightarrow> string \<Rightarrow> string \<Rightarrow> string" where
  "getenv_default env var dflt = (case env var of None \<Rightarrow> dflt | Some v \<Rightarrow> v)"

definition required_vars :: "string list" where
  "required_vars =
     [''AZURE_SEARCH_ENDPOINT'',
      ''AZURE_SEARCH_KEY'',
      ''AZURE_OPENAI_EMBEDDINGS_ENDPOINT'',
      ''AZURE_OPENAI_EMBEDDINGS_API_KEY'']"

text \<open>\<open>not os.getenv(var)\<close>: the variable is unset or set to the empty string.\<close>

definition missing_vars :: "(string \<rightharpoonup> string) \<Rightarrow> string list" where
  "missing_vars env = filter (\<lambda>var. env var = None \<or> env var = Some []) required_vars"

record search_client =
  endpoint :: "string option"
  index_name :: string
  credential :: "string option"

record openai_client =
  azure_endpoint :: "string option"
  api_key :: "string option"
  api_version :: string

record 'v document =
  doc_id :: string
  doc_title :: string
  doc_content :: string
  doc_summary :: string
  doc_document_type :: string
  doc_institution :: string
  doc_year :: int
  file_format :: string
  doc_tags :: string
  chunk_index :: int
  total_chunks :: int
  file_path :: string
  file_size :: nat
  created_date :: string
  relevance_score :: real
  content_vector :: "'v list"

record upload_result =
  succeeded :: bool
  error_message :: "string option"

text \<open>
  Everything outside the script. The embedding service and the clock are asked once per
  chunk, so their answer is given per file and chunk position; the upload service is asked
  once per batch, so its answer is given per batch number.
\<close>

record ('tok, 'v) world =
  getenv :: "string \<rightharpoonup> string"
  dir_exists :: bool
  glob_pdf :: "path list"
  pdf_reader :: "path \<Rightarrow> exn + (exn + string) list"
  stat_size :: "path \<Rightarrow> exn + nat"
  tiktoken :: "'tok tokenizer"
  md5_hexdigest :: "string \<Rightarrow> string"
  now_strftime :: "path \<Rightarrow> nat \<Rightarrow> string"
  embeddings_create :: "openai_client \<Rightarrow> path \<Rightarrow> nat \<Rightarrow> string \<Rightarrow> string \<Rightarrow> exn + 'v list"
  upload_documents :: "search_client \<Rightarrow> nat \<Rightarrow> 'v document list \<Rightarrow> exn + upload_result list"

text \<open>The calls that leave the process, in the order they are made.\<close>

datatype io =
    IoOpenPdf string
  | IoEmbeddings string nat
  | IoStat string
  | IoDirExists
  | IoGlob
  | IoUpload nat

subsection \<open>The chunk loop of one file\<close>

text \<open>Lines 268 and 269: the identifier of chunk \<open>i\<close> of a file with \<open>n\<close> chunks.\<close>

definition chunk_suffix :: "nat \<Rightarrow> nat \<Rightarrow> string" where
  "chunk_suffix i n = (if n > 1 then ''_chunk'' @ str_nat i else ''_single'')"

text \<open>Lines 278 to 302: the record of a chunk whose embedding is not empty.\<close>

definition make_document ::
  "('tok, 'v) world \<Rightarrow> path \<Rightarrow> metadata \<Rightarrow> nat \<Rightarrow> nat \<Rightarrow> string \<Rightarrow> string \<Rightarrow> 'v list \<Rightarrow> nat \<Rightarrow> 'v document"
where
  "make_document w fp md n i chunk did embeddings sz =
     \<lparr>doc_id = did,
      doc_title = name fp @ (if n > 1 then '' (Part '' @ str_nat (i + 1) @ ''/'' @ str_nat n @ '')'' else []),
      doc_content = chunk,
      doc_summary = (if n > 1 then ''Part '' @ str_nat (i + 1) @ '' of '' @ str_nat n @ '' from '' @ name fp
                     else ''Complete content from '' @ name fp),
      doc_document_type = document_type md,
      doc_institution = institution md,
      doc_year = year md,
      file_format = ''PDF'',
      doc_tags = tags md,
      chunk_index = int i,
      total_chunks = int n,
      file_path = path_str fp,
      file_size = sz,
      created_date = now_strftime w fp i,
      relevance_score = real (length (py_split chunk)) / 1000,
      content_vector = embeddings\<rparr>"

text \<open>
  Lines 264 to 304, over \<open>enumerate(chunks)\<close>: \<open>n\<close> is \<open>len(chunks)\<close>, \<open>docs\<close> is
  \<open>file_documents\<close>. A chunk with an empty embedding is skipped (\<open>continue\<close>); an exception
  of \<open>stat\<close> leaves the loop for the handler of the file.
\<close>

fun chunks_loop ::
  "('tok, 'v) world \<Rightarrow> openai_client \<Rightarrow> string \<Rightarrow> path \<Rightarrow> metadata \<Rightarrow> nat \<Rightarrow>
   (nat \<times> string) list \<Rightarrow> 'v document list \<Rightarrow> io list \<Rightarrow> (exn + 'v document list) \<times> io list"
where
  "chunks_loop w client model fp md n [] docs tr = (Inr docs, tr)"
| "chunks_loop w client model fp md n ((i, chunk) # rest) docs tr =
     (let did = md5_hexdigest w (name fp @ chunk_suffix i n);
          embeddings = get_embeddings chunk (embeddings_create w client fp i) model;
          tr1 = tr @ [IoEmbeddings (path_str fp) i]
      in if embeddings = [] then chunks_loop w client model fp md n rest docs tr1
         else (case stat_size w fp of
                 Inl e \<Rightarrow> (Inl e, tr1 @ [IoStat (path_str fp)])
               | Inr sz \<Rightarrow>
                   chunks_loop w client model fp md n rest
                     (docs @ [make_document w fp md n i chunk did embeddings sz])
                     (tr1 @ [IoStat (path_str fp)])))"

text \<open>The body of the \<open>for\<close> loop over the files, lines 245 to 322.\<close>

datatype 'v file_result = Skipped | Failed exn | Processed "'v document list"

definition process_file ::
  "('tok, 'v) world \<Rightarrow> openai_client \<Rightarrow> string \<Rightarrow> path \<Rightarrow> 'v file_result \<times> io list"
where
  "process_file w client model fp =
     (let text = extract_pdf_content (pdf_reader w) fp;
          tr = [IoOpenPdf (path_str fp)]
      in if text = [] then (Skipped, tr)
         else
           (let md = get_esg_metadata fp;
                cs = fst (chunk_text (tiktoken w) text 800 150)
            in case chunks_loop w client model fp md (length cs) (enumerate 0 cs) [] tr of
                 (Inl e, tr') \<Rightarrow> (Failed e, tr')
               | (Inr docs, tr') \<Rightarrow> (Processed docs, tr')))"

record 'v run_state =
  all_documents :: "'v document list"
  processed_files :: nat
  trace :: "io list"

fun files_loop ::
  "('tok, 'v) world \<Rightarrow> openai_client \<Rightarrow> string \<Rightarrow> path list \<Rightarrow> 'v run_state \<Rightarrow> 'v run_state"
where
  "files_loop w client model [] st = st"
| "files_loop w client model (fp # fps) st =
     files_loop w client model fps
       (case process_file w client model fp of
          (Skipped, tr) \<Rightarrow> st\<lparr>trace := trace st @ tr\<rparr>
        | (Failed e, tr) \<Rightarrow> st\<lparr>trace := trace st @ tr\<rparr>
        | (Processed docs, tr) \<Rightarrow>
            \<lparr>all_documents = all_documents st @ docs,
             processed_files = processed_files st + 1,
             trace = trace st @ tr\<rparr>)"

subsection \<open>The batch upload loop\<close>

definition batch_size :: nat where
  "batch_size = 5"

datatype upload_msg =
    UploadingBatch nat nat nat
  | BatchPartial nat nat int "string option list"
  | BatchAllUploaded nat nat
  | ErrorUploadingBatch nat exn

text \<open>\<open>sent\<close> lists the batches handed to the service, in order.\<close>

record 'v upload_state =
  total_uploaded :: nat
  sent :: "'v document list list"
  printed :: "upload_msg list"

text \<open>
  The body of the upload loop, lines 334 to 358, for the batch that starts at index \<open>i\<close>.
  An exception of the upload call prints a message and adds nothing to the total.
\<close>

definition upload_batch ::
  "(nat \<Rightarrow> 'v document list \<Rightarrow> exn + upload_result list) \<Rightarrow> 'v document list \<Rightarrow> nat \<Rightarrow>
   'v upload_state \<Rightarrow> 'v upload_state"
where
  "upload_batch upload docs i st =
     (let batch = py_slice docs (int i) (int i + int batch_size);
          batch_num = i div batch_size + 1;
          total_batches = (length docs + batch_size - 1) div batch_size;
          p1 = printed st @ [UploadingBatch batch_num total_batches (length batch)]
      in case upload batch_num batch of
           Inr result \<Rightarrow>
             (let success_count = length (filter succeeded result);
                  error_count = int (length batch) - int success_count
              in \<lparr>total_uploaded = total_uploaded st + success_count,
                  sent = sent st @ [batch],
                  printed = p1 @
                    [if error_count > 0
                     then BatchPartial batch_num success_count error_count
                            (map error_message (filter (\<lambda>r. \<not> succeeded r) result))
                     else BatchAllUploaded batch_num success_count]\<rparr>)
         | Inl e \<Rightarrow>
             \<lparr>total_uploaded = total_uploaded st,
              sent = sent st @ [batch],
              printed = p1 @ [ErrorUploadingBatch batch_num e]\<rparr>)"

text \<open>The loop itself: \<open>i\<close> runs over \<open>range(0, len(all_documents), batch_size)\<close>.\<close>

function upload_loop ::
  "(nat \<Rightarrow> 'v document list \<Rightarrow> exn + upload_result list) \<Rightarrow> 'v document list \<Rightarrow> nat \<Rightarrow>
   'v upload_state \<Rightarrow> 'v upload_state"
where
  "upload_loop upload docs i st =
     (if i < length docs
      then upload_loop upload docs (i + batch_size) (upload_batch upload docs i st)
      else st)"
  by pat_completeness auto
termination
  by (relation "measure (\<lambda>(upload, docs, i, st). length docs - i)")
     (auto simp: batch_size_def)

declare upload_loop.simps [simp del]

subsection \<open>The driver\<close>

record summary =
  files_processed :: nat
  files_found :: nat
  chunks_uploaded :: nat
  chunks_total :: nat

datatype outcome =
    MissingEnvironment "string list"
  | DirectoryNotFound
  | NoPdfFiles
  | NoDocuments
  | UploadCompleted summary

record run =
  outcome :: outcome
  calls :: "io list"

definition main :: "('tok, 'v) world \<Rightarrow> run" where
  "main w =
     (let missing = missing_vars (getenv w) in
      if missing \<noteq> [] then \<lparr>outcome = MissingEnvironment missing, calls = []\<rparr>
      else
        (let sc = \<lparr>endpoint = getenv w ''AZURE_SEARCH_ENDPOINT'',
                   index_name = ''esg-documents-index'',
                   credential = getenv w ''AZURE_SEARCH_KEY''\<rparr>;
             oc = \<lparr>azure_endpoint = getenv w ''AZURE_OPENAI_EMBEDDINGS_ENDPOINT'',
                   api_key = getenv w ''AZURE_OPENAI_EMBEDDINGS_API_KEY'',
                   api_version = getenv_default (getenv w) ''AZURE_OPENAI_API_VERSION'' ''2024-02-01''\<rparr>;
             embedding_model = getenv_default (getenv w)
                                 ''AZURE_OPENAI_EMBEDDINGS_DEPLOYMENT_NAME'' ''text-embedding-3-large''
         in if \<not> dir_exists w then \<lparr>outcome = DirectoryNotFound, calls = [IoDirExists]\<rparr>
            else
              (let pdf_files = glob_pdf w in
               if pdf_files = [] then \<lparr>outcome = NoPdfFiles, calls = [IoDirExists, IoGlob]\<rparr>
               else
                 (let st = files_loop w oc embedding_model pdf_files
                             \<lparr>all_documents = [], processed_files = 0,
                              trace = [IoDirExists, IoGlob]\<rparr>
                  in if all_documents st \<noteq> [] then
                       (let up = upload_loop (upload_documents w sc) (all_documents st) 0
                                   \<lparr>total_uploaded = 0, sent = [], printed = []\<rparr>
                        in \<lparr>outcome = UploadCompleted
                                       \<lparr>files_processed = processed_files st,
                                        files_found = length pdf_files,
                                        chunks_uploaded = total_uploaded up,
                                        chunks_total = length (all_documents st)\<rparr>,
                            calls = trace st @ map IoUpload [1 ..< Suc (length (sent up))]\<rparr>)
                     else \<lparr>outcome = NoDocuments, calls = trace st\<rparr>))))"

subsection \<open>Auxiliary notions for the statements\<close>

text \<open>The chunk at position \<open>i\<close> gets a record: its embedding is not empty (line 273).\<close>

definition has_embeddings ::
  "('tok, 'v) world \<Rightarrow> openai_client \<Rightarrow> string \<Rightarrow> path \<Rightarrow> nat \<times> string \<Rightarrow> bool"
where
  "has_embeddings w client model fp ic =
     (get_embeddings (snd ic) (embeddings_create w client fp (fst ic)) model \<noteq> [])"

text \<open>The \<open>k\<close>-th slice of the upload loop, counted from 0, and the number of slices.\<close>

definition batch_at :: "'a list \<Rightarrow> nat \<Rightarrow> 'a list" where
  "batch_at docs k = take batch_size (drop (k * batch_size) docs)"

definition total_batches :: "'a list \<Rightarrow> nat" where
  "total_batches docs = (length docs + batch_size - 1) div batch_size"

text \<open>What the upload of slice \<open>k\<close> adds to \<open>total_uploaded\<close>.\<close>

definition credited ::
  "(nat \<Rightarrow> 'v document list \<Rightarrow> exn + upload_result list) \<Rightarrow> 'v document list \<Rightarrow> nat \<Rightarrow> nat"
where
  "credited upload docs k =
     (case upload (k + 1) (batch_at docs k) of
        Inl e \<Rightarrow> 0
      | Inr res \<Rightarrow> length (filter succeeded res))"

text \<open>A match of the pattern \<open>20\d{2}\<close>.\<close>

definition year_pattern :: "string \<Rightarrow> bool" where
  "year_pattern y =
     (case y of
        [a, b, c, d] \<Rightarrow> a = CHR ''2'' \<and> b = CHR ''0'' \<and> is_digit c \<and> is_digit d
      | _ \<Rightarrow> False)"

subsection \<open>Concrete inputs\<close>


definition failing_decoder :: "char tokenizer" where
  "failing_decoder = \<lparr>encode = Inr, decode = (\<lambda>ts. Inl (Exception ''bad tokens''))\<rparr>"

definition test_env :: "string \<rightharpoonup> string" where
  "test_env = map_of
     [(''AZURE_SEARCH_ENDPOINT'', ''https://search.example''),
      (''AZURE_SEARCH_KEY'', ''key1''),
      (''AZURE_OPENAI_EMBEDDINGS_ENDPOINT'', ''https://openai.example''),
      (''AZURE_OPENAI_EMBEDDINGS_API_KEY'', ''key2'')]"

definition test_pdf :: path where
  "test_pdf = \<lparr>name = ''GRI_2023_climate_report.pdf'',
               path_str = ''ESG_docs/GRI_2023_climate_report.pdf''\<rparr>"

definition test_client :: openai_client where
  "test_client = \<lparr>azure_endpoint = Some ''https://openai.example'', api_key = Some ''key2'',
                   api_version = ''2024-02-01''\<rparr>"

text \<open>
  An embedding service that answers only the default deployment and API version, and fails
  on the chunk at position 1 of every file.
\<close>

definition test_embeddings ::
  "openai_client \<Rightarrow> path \<Rightarrow> nat \<Rightarrow> string \<Rightarrow> string \<Rightarrow> exn + real list" where
  "test_embeddings client fp i text model =
     (if model = ''text-embedding-3-large'' \<and> api_version client = ''2024-02-01'' \<and> i \<noteq> 1
      then Inr [1, 2] else Inl (Exception ''embedding failed''))"

definition test_upload :: "search_client \<Rightarrow> nat \<Rightarrow> 'v document list \<Rightarrow> exn + upload_result list" where
  "test_upload sc batch_num batch =
     Inr (map (\<lambda>d. \<lparr>succeeded = True, error_message = None\<rparr>) batch)"

definition test_world :: "(char, real) world" where
  "test_world =
     \<lparr>getenv = test_env,
      dir_exists = True,
      glob_pdf = [test_pdf],
      pdf_reader = (\<lambda>fp. Inr [Inr ''Scope 1 emissions'']),
      stat_size = (\<lambda>fp. Inr 4096),
      tiktoken = char_tokenizer,
      md5_hexdigest = (\<lambda>s. ''md5:'' @ s),
      now_strftime = (\<lambda>fp i. ''2024-01-01T00:00:00.000000Z''),
      embeddings_create = test_embeddings,
      upload_documents = test_upload\<rparr>"

text \<open>A second run: another clock, another file size, the same file name and digest.\<close>

definition rerun_world :: "(char, real) world" where
  "rerun_world = test_world\<lparr>now_strftime := (\<lambda>fp i. ''2025-06-30T12:00:00.000000Z''),
                            stat_size := (\<lambda>fp. Inr 8192)\<rparr>"

text \<open>
  An upload service for twelve records: two of the five records of batch 1 are rejected,
  the call for batch 2 raises, batch 3 is accepted.
\<close>

definition partial_upload :: "nat \<Rightarrow> 'v document list \<Rightarrow> exn + upload_result list" where
  "partial_upload batch_num batch =
     (if batch_num = 1 then
        Inr [\<lparr>succeeded = True, error_message = None\<rparr>,
             \<lparr>succeeded = False, error_message = Some ''rejected''\<rparr>,
             \<lparr>succeeded = True, error_message = None\<rparr>,
             \<lparr>succeeded = True, error_message = None\<rparr>,
             \<lparr>succeeded = False, error_message = Some ''rejected''\<rparr>]
      else if batch_num = 2 then Inl (Exception ''connection reset'')
      else Inr (map (\<lambda>d. \<lparr>succeeded = True, error_message = None\<rparr>) batch))"

text \<open>
  Three chunks of the test file and the records the chunk loop builds from them in the two
  runs: the chunk at position 1 gets no embedding.
\<close>

definition test_chunks :: "string list" where
  "test_chunks = [''alpha'', ''beta'', ''gamma'']"

definition test_docs :: "real document list" where
  "test_docs =
     [make_document test_world test_pdf (get_esg_metadata test_pdf) 3 0 ''alpha''
        ''md5:GRI_2023_climate_report.pdf_chunk0'' [1, 2] 4096,
      make_document test_world test_pdf (get_esg_metadata test_pdf) 3 2 ''gamma''
        ''md5:GRI_2023_climate_report.pdf_chunk2'' [1, 2] 4096]"

definition rerun_docs :: "real document list" where
  "rerun_docs =
     [make_document rerun_world test_pdf (get_esg_metadata test_pdf) 3 0 ''alpha''
        ''md5:GRI_2023_climate_report.pdf_chunk0'' [1, 2] 8192,
      make_document rerun_world test_pdf (get_esg_metadata test_pdf) 3 2 ''gamma''
        ''md5:GRI_2023_climate_report.pdf_chunk2'' [1, 2] 8192]"

text \<open>The record of a file with a single chunk, and an environment with two values missing.\<close>

definition test_doc :: "real document" where
  "test_doc = make_document test_world test_pdf (get_esg_metadata test_pdf) 1 0 ''Scope 1 emissions''
                ''md5:GRI_2023_climate_report.pdf_single'' [1, 2] 4096"

definition missing_key_world :: "(char, real) world" where
  "missing_key_world =
     test_world\<lparr>getenv := test_env(''AZURE_SEARCH_KEY'' := None,
                                     ''AZURE_OPENAI_EMBEDDINGS_API_KEY'' \<mapsto> [])\<rparr>"

section \<open>Properties\<close>

subsection \<open>Slicing and the chunk loop\<close>

lemma py_slice_nonneg:
  "0 \<le> s \<Longrightarrow> 0 \<le> e \<Longrightarrow> py_slice xs s e = take (nat e - nat s) (drop (nat s) xs)"
  by (auto simp: py_slice_def py_bound_def Let_def min_def)

lemma py_slice_batch: "py_slice xs (int i) (int i + int n) = take n (drop i xs)"
  by (simp add: py_slice_nonneg nat_add_distrib)

lemma chunk_loop_at_cap:
  "chunk_num st \<ge> max_chunks \<Longrightarrow> chunk_loop tk tokens max_tokens overlap st = Inr st"
  by (subst chunk_loop.simps) simp

lemma chunk_loop_runs_to_cap:
  assumes dec: "\<And>ts. \<exists>s. decode tk ts = Inr s"
    and ov: "0 < overlap" "overlap < max_tokens" "max_tokens < int (length tokens)"
  shows "max_chunks - chunk_num st = k \<Longrightarrow> 0 \<le> start st \<Longrightarrow> start st < int (length tokens) \<Longrightarrow>
         \<exists>st'. chunk_loop tk tokens max_tokens overlap st = Inr st' \<and>
               chunk_num st' = max (chunk_num st) max_chunks \<and>
               length (chunks st') = length (chunks st) + k"
proof (induction k arbitrary: st)
  case 0
  then have "chunk_num st \<ge> max_chunks" by simp
  then show ?case using 0 by (simp add: chunk_loop_at_cap max_def)
next
  case (Suc k)
  then have lt: "chunk_num st < max_chunks" by simp
  define e where "e = min (start st + max_tokens) (int (length tokens))"
  obtain c where c: "decode tk (py_slice tokens (start st) e) = Inr c"
    using dec by blast
  define st' where "st' = \<lparr>chunks = chunks st @ [c], start = e - overlap,
       chunk_num = chunk_num st + 1,
       out = (if (chunk_num st + 1) mod 25 = 0
              then out st @ [CreatedChunksProgress (chunk_num st + 1) (start st) (length tokens)]
              else out st)\<rparr>"
  have s0: "0 \<le> start st'" and s1: "start st' < int (length tokens)"
    using Suc.prems ov by (auto simp: st'_def e_def min_def)
  have step: "chunk_loop tk tokens max_tokens overlap st = chunk_loop tk tokens max_tokens overlap st'"
    apply (subst chunk_loop.simps)
    using lt Suc.prems(3) c s1 unfolding st'_def e_def by (simp add: Let_def)
  have k: "max_chunks - chunk_num st' = k" using Suc.prems(1) by (simp add: st'_def)
  from Suc.IH[OF k s0 s1] obtain st'' where
    r: "chunk_loop tk tokens max_tokens overlap st' = Inr st''"
       "chunk_num st'' = max (chunk_num st') max_chunks"
       "length (chunks st'') = length (chunks st') + k" by blast
  show ?case using r step lt by (auto simp: st'_def max_def)
qed


lemma chunk_loop_windows:
  assumes dec: "\<And>ts. decode tk ts = Inr (d ts)"
    and T: "650150 < length tokens"
  shows "max_chunks - chunk_num st = k \<Longrightarrow> start st = 650 * int (chunk_num st) \<Longrightarrow>
         chunks st = map (\<lambda>i. d (take 800 (drop (650 * i) tokens))) [0 ..< chunk_num st] \<Longrightarrow>
         \<exists>st'. chunk_loop tk tokens 800 150 st = Inr st' \<and>
               chunk_num st' = max (chunk_num st) max_chunks \<and>
               chunks st' = map (\<lambda>i. d (take 800 (drop (650 * i) tokens)))
                              [0 ..< max (chunk_num st) max_chunks]"
proof (induction k arbitrary: st)
  case 0
  then have "chunk_num st \<ge> max_chunks" by simp
  then show ?case using 0 by (simp add: chunk_loop_at_cap max_def)
next
  case (Suc k)
  then have lt: "chunk_num st < max_chunks" by simp
  then have n: "chunk_num st < 1000" by (simp add: max_chunks_def)
  have e: "min (start st + 800) (int (length tokens)) = start st + 800"
    using Suc.prems(2) n T by simp
  have sl: "py_slice tokens (start st) (start st + 800) = take 800 (drop (650 * chunk_num st) tokens)"
    using Suc.prems(2) by (simp add: py_slice_nonneg nat_add_distrib nat_mult_distrib)
  define st' where "st' = \<lparr>chunks = chunks st @ [d (take 800 (drop (650 * chunk_num st) tokens))],
       start = start st + 800 - 150,
       chunk_num = chunk_num st + 1,
       out = (if (chunk_num st + 1) mod 25 = 0
              then out st @ [CreatedChunksProgress (chunk_num st + 1) (start st) (length tokens)]
              else out st)\<rparr>"
  have s1: "start st' < int (length tokens)"
    using Suc.prems(2) n T by (simp add: st'_def)
  have lt0: "start st < int (length tokens)"
    using Suc.prems(2) n T by simp
  have step: "chunk_loop tk tokens 800 150 st = chunk_loop tk tokens 800 150 st'"
    apply (subst chunk_loop.simps)
    using lt lt0 s1 unfolding st'_def by (simp add: Let_def e sl dec)
  have k: "max_chunks - chunk_num st' = k" using Suc.prems(1) by (simp add: st'_def)
  have s: "start st' = 650 * int (chunk_num st')"
    using Suc.prems(2) by (simp add: st'_def)
  have c: "chunks st' = map (\<lambda>i. d (take 800 (drop (650 * i) tokens))) [0 ..< chunk_num st']"
    using Suc.prems(3) by (simp add: st'_def)
  from Suc.IH[OF k s c] obtain st'' where
    r: "chunk_loop tk tokens 800 150 st' = Inr st''"
       "chunk_num st'' = max (chunk_num st') max_chunks"
       "chunks st'' = map (\<lambda>i. d (take 800 (drop (650 * i) tokens)))
                              [0 ..< max (chunk_num st') max_chunks]" by blast
  show ?case using r step lt by (auto simp: st'_def max_def)
qed

lemma chunk_loop_stuck:
  assumes dec: "\<And>ts. decode tk ts = Inr (d ts)"
    and ov: "0 < overlap" "overlap < max_tokens" "overlap \<le> int (length tokens)"
  shows "max_chunks - chunk_num st = k \<Longrightarrow> start st = int (length tokens) - overlap \<Longrightarrow>
         \<exists>st'. chunk_loop tk tokens max_tokens overlap st = Inr st' \<and>
               chunk_num st' = max (chunk_num st) max_chunks \<and>
               chunks st' = chunks st @
                 replicate k (d (drop (nat (int (length tokens) - overlap)) tokens))"
proof (induction k arbitrary: st)
  case 0
  then have "chunk_num st \<ge> max_chunks" by simp
  then show ?case using 0 by (simp add: chunk_loop_at_cap max_def)
next
  case (Suc k)
  then have lt: "chunk_num st < max_chunks" by simp
  have e: "min (start st + max_tokens) (int (length tokens)) = int (length tokens)"
    using Suc.prems(2) ov by simp
  have sl: "py_slice tokens (start st) (int (length tokens)) =
              drop (nat (int (length tokens) - overlap)) tokens"
    using Suc.prems(2) ov by (simp add: py_slice_nonneg)
  define st' where "st' = \<lparr>chunks = chunks st @ [d (drop (nat (int (length tokens) - overlap)) tokens)],
       start = int (length tokens) - overlap,
       chunk_num = chunk_num st + 1,
       out = (if (chunk_num st + 1) mod 25 = 0
              then out st @ [CreatedChunksProgress (chunk_num st + 1) (start st) (length tokens)]
              else out st)\<rparr>"
  have lt0: "start st < int (length tokens)"
    using Suc.prems(2) ov by simp
  have step: "chunk_loop tk tokens max_tokens overlap st = chunk_loop tk tokens max_tokens overlap st'"
    apply (subst chunk_loop.simps)
    using lt lt0 ov(1) unfolding st'_def by (simp add: Let_def e sl dec)
  have k: "max_chunks - chunk_num st' = k" using Suc.prems(1) by (simp add: st'_def)
  have s: "start st' = int (length tokens) - overlap" by (simp add: st'_def)
  from Suc.IH[OF k s] obtain st'' where
    r: "chunk_loop tk tokens max_tokens overlap st' = Inr st''"
       "chunk_num st'' = max (chunk_num st') max_chunks"
       "chunks st'' = chunks st' @
                 replicate k (d (drop (nat (int (length tokens) - overlap)) tokens))" by blast
  show ?case using r step lt by (auto simp: st'_def max_def replicate_app_Cons_same)
qed

lemma chunk_text_runs_to_cap:
  assumes enc: "encode tk text = Inr tokens"
    and dec: "\<And>ts. \<exists>s. decode tk ts = Inr s"
    and ov: "0 < overlap" "overlap < max_tokens" "max_tokens < int (length tokens)"
  shows "length (fst (chunk_text tk text max_tokens overlap)) = 1000 \<and>
         HitChunkLimit 1000 \<in> set (snd (chunk_text tk text max_tokens overlap))"
proof -
  let ?st0 = "\<lparr>chunks = [], start = 0, chunk_num = 0, out = [TotalTokens (length tokens)]\<rparr>"
  have "tokens \<noteq> []" using ov by (cases tokens) auto
  with chunk_loop_runs_to_cap[OF dec ov, of ?st0 max_chunks]
  obtain st' where r: "chunk_loop tk tokens max_tokens overlap ?st0 = Inr st'"
     "chunk_num st' = max_chunks" "length (chunks st') = max_chunks"
    by auto
  show ?thesis
    using r enc ov by (simp add: chunk_text_def chunk_body_def Let_def max_chunks_def)
qed

subsection \<open>The chunker\<close>

text \<open>
  C1. The claim: a text with more tokens than \<open>max_tokens\<close> is cut into sliding windows and
  the loop stops at the end of the text; 1200 tokens at the defaults (800, 150) give exactly
  2 chunks. The code: after a window that ends at the last token, \<open>start = end - overlap\<close>
  is still below the token count, so the test \<open>start >= len(tokens)\<close> before the \<open>break\<close>
  never holds and the last window is appended again and again until \<open>max_chunks\<close> stops
  the loop. A text of 1200 one-character tokens gives 1000 chunks, not 2: the windows
  \<open>[0, 800)\<close> and \<open>[650, 1200)\<close>, then 998 copies of the tail \<open>[1050, 1200)\<close>.
\<close>

theorem chunk_text_1200_tokens:
  "fst (chunk_text char_tokenizer (replicate 1200 (CHR ''a'')) 800 150) =
     [replicate 800 (CHR ''a''), replicate 550 (CHR ''a'')] @
     replicate 998 (replicate 150 (CHR ''a'')) \<and>
   length (fst (chunk_text char_tokenizer (replicate 1200 (CHR ''a'')) 800 150)) = 1000"
proof -
  let ?toks = "replicate 1200 (CHR ''a'')"
  let ?o1 = "[TotalTokens 1200]"
  let ?st2 = "\<lparr>chunks = [replicate 800 (CHR ''a''), replicate 550 (CHR ''a'')],
               start = 1050, chunk_num = 2, out = ?o1\<rparr>"
  have d: "decode char_tokenizer ts = Inr ts" for ts
    by (simp add: char_tokenizer_def)
  have two: "chunk_loop char_tokenizer ?toks 800 150
               \<lparr>chunks = [], start = 0, chunk_num = 0, out = ?o1\<rparr> =
             chunk_loop char_tokenizer ?toks 800 150 ?st2"
    apply (subst chunk_loop.simps)
    apply (simp add: Let_def d max_chunks_def py_slice_def py_bound_def)
    apply (subst chunk_loop.simps)
    apply (simp add: Let_def d max_chunks_def py_slice_def py_bound_def numeral_2_eq_2)
    done
  from chunk_loop_stuck[of char_tokenizer "\<lambda>ts. ts" 150 800 ?toks ?st2 998, OF d]
  obtain st' where r: "chunk_loop char_tokenizer ?toks 800 150 ?st2 = Inr st'"
    "chunk_num st' = max_chunks"
    "chunks st' = [replicate 800 (CHR ''a''), replicate 550 (CHR ''a'')] @
                    replicate 998 (replicate 150 (CHR ''a''))"
    by (auto simp: max_chunks_def)
  have en: "encode char_tokenizer ?toks = Inr ?toks"
    by (simp add: char_tokenizer_def)
  have "fst (chunk_text char_tokenizer ?toks 800 150) = chunks st'"
    by (simp add: chunk_text_def chunk_body_def Let_def en two r)
  then show ?thesis by (simp add: r)
qed

text \<open>
  C2. When the text has at most \<open>max_tokens\<close> tokens, \<open>chunk_text\<close> returns the one-element
  list holding the input text itself and prints the token count. The result is the same
  whatever \<open>decode\<close> does (here it is replaced by an arbitrary \<open>d\<close>), so the text never
  goes through a decode of its tokens.
\<close>

theorem chunk_text_single_chunk:
  assumes "encode tk text = Inr tokens" and "int (length tokens) \<le> max_tokens"
  shows "chunk_text (tk\<lparr>decode := d\<rparr>) text max_tokens overlap =
           ([text], [ChunkingText max_tokens overlap, TotalTokens (length tokens),
                     FitsSingleChunk (length tokens)])"
  using assms by (simp add: chunk_text_def chunk_body_def Let_def)

theorem chunk_text_single_chunk_witness:
  "chunk_text (char_tokenizer\<lparr>decode := decode failing_decoder\<rparr>) ''esg report'' 800 150 =
     ([''esg report''], [ChunkingText 800 150, TotalTokens 10, FitsSingleChunk 10])"
  using chunk_text_single_chunk[of char_tokenizer "''esg report''" "''esg report''" 800
          "decode failing_decoder" 150]
  by (simp add: char_tokenizer_def)

text \<open>
  C3. At the defaults the windows advance by 650 tokens, so the 1000th window ends at token
  999 * 650 + 800 = 650150 and a longer text needs more than 1000 chunks. For such a text
  (with a tokenizer that encodes it and decodes every slice) \<open>chunk_text\<close> returns exactly
  the first 1000 windows, chunk \<open>i\<close> being the decoded tokens \<open>[650 i, 650 i + 800)\<close>; no
  chunk holds a token from position 650150 on; and the output contains the warning that
  the chunk limit was hit.
\<close>

theorem chunk_text_cap:
  assumes enc: "encode tk text = Inr tokens"
    and dec: "\<And>ts. decode tk ts = Inr (d ts)"
    and T: "650150 < length tokens"
  shows "fst (chunk_text tk text 800 150) =
           map (\<lambda>i. d (take 800 (drop (650 * i) tokens))) [0 ..< 1000] \<and>
         length (fst (chunk_text tk text 800 150)) = 1000 \<and>
         HitChunkLimit 1000 \<in> set (snd (chunk_text tk text 800 150))"
proof -
  let ?st0 = "\<lparr>chunks = [], start = 0, chunk_num = 0, out = [TotalTokens (length tokens)]\<rparr>"
  from chunk_loop_windows[OF dec T, of ?st0 max_chunks]
  obtain st' where r: "chunk_loop tk tokens 800 150 ?st0 = Inr st'"
     "chunk_num st' = max_chunks"
     "chunks st' = map (\<lambda>i. d (take 800 (drop (650 * i) tokens))) [0 ..< max_chunks]"
    by auto
  show ?thesis
    using r enc T by (simp add: chunk_text_def chunk_body_def Let_def max_chunks_def)
qed

theorem chunk_text_cap_witness:
  "fst (chunk_text char_tokenizer (replicate 650151 (CHR ''a'')) 800 150) =
     map (\<lambda>i. take 800 (drop (650 * i) (replicate 650151 (CHR ''a'')))) [0 ..< 1000] \<and>
   length (fst (chunk_text char_tokenizer (replicate 650151 (CHR ''a'')) 800 150)) = 1000 \<and>
   HitChunkLimit 1000 \<in> set (snd (chunk_text char_tokenizer (replicate 650151 (CHR ''a'')) 800 150))"
  using chunk_text_cap[of char_tokenizer "replicate 650151 (CHR ''a'')"
          "replicate 650151 (CHR ''a'')" "\<lambda>ts. ts"]
  by (simp add: char_tokenizer_def)



subsection \<open>The filename classifier\<close>

lemmas str_eval = lower_def lower_char_def upper_char_def is_upper_def is_lower_def is_digit_def
  ascii_uppercase_def ascii_lowercase_def digits_def is_space_def title_def py_int_def py_split_def
  strip_def

text \<open>\<open>py_in\<close> is the substring test, and \<open>re_search_year\<close> finds the leftmost match.\<close>

lemma year_pattern_iff:
  "year_pattern y \<longleftrightarrow> (\<exists>c d. y = [CHR ''2'', CHR ''0'', c, d] \<and> is_digit c \<and> is_digit d)"
  by (auto simp: year_pattern_def split: list.splits)

lemma starts_with_iff: "starts_with s p \<longleftrightarrow> (\<exists>b. s = p @ b)"
  by (induction s p rule: starts_with.induct) auto

lemma re_search_year_short: "length s < 4 \<Longrightarrow> re_search_year s = None"
  by (cases s rule: re_search_year.cases) auto

lemma re_search_year_Some:
  "re_search_year s = Some y \<Longrightarrow>
     year_pattern y \<and>
     (\<exists>a b. s = a @ y @ b \<and>
        (\<forall>a' y' b'. s = a' @ y' @ b' \<and> year_pattern y' \<longrightarrow> length a \<le> length a'))"
proof (induction s rule: re_search_year.induct)
  case (1 a b c d rest)
  show ?case
  proof (cases "a = CHR ''2'' \<and> b = CHR ''0'' \<and> is_digit c \<and> is_digit d")
    case True
    then have y: "y = [a, b, c, d]" using 1 by simp
    then have "year_pattern y" using True by (simp add: year_pattern_iff)
    moreover have "a # b # c # d # rest = [] @ y @ rest" using y by simp
    ultimately show ?thesis by (metis list.size(3) le0)
  next
    case False
    then have r: "re_search_year (b # c # d # rest) = Some y" using 1 by auto
    from 1(1)[OF False r] obtain p q where
      yp: "year_pattern y" and pq: "b # c # d # rest = p @ y @ q"
      and least: "\<forall>a' y' b'. b # c # d # rest = a' @ y' @ b' \<and> year_pattern y' \<longrightarrow> length p \<le> length a'"
      by blast
    have "a # b # c # d # rest = (a # p) @ y @ q" using pq by simp
    moreover have "length (a # p) \<le> length a'"
      if m: "a # b # c # d # rest = a' @ y' @ b'" and y': "year_pattern y'" for a' y' b'
    proof (cases a')
      case Nil
      then have "a # b # c # d # rest = y' @ b'" using m by simp
      then have "a = CHR ''2'' \<and> b = CHR ''0'' \<and> is_digit c \<and> is_digit d"
        using y' by (auto simp: year_pattern_iff)
      then show ?thesis using False by simp
    next
      case (Cons x a'')
      then have "b # c # d # rest = a'' @ y' @ b'" using m by simp
      then have "length p \<le> length a''" using least y' by blast
      then show ?thesis using Cons by simp
    qed
    ultimately show ?thesis using yp by blast
  qed
qed simp_all

lemma re_search_year_None:
  "re_search_year s = None \<Longrightarrow> \<not> (\<exists>a y b. s = a @ y @ b \<and> year_pattern y)"
proof (induction s rule: re_search_year.induct)
  case (1 a b c d rest)
  then have nm: "\<not> (a = CHR ''2'' \<and> b = CHR ''0'' \<and> is_digit c \<and> is_digit d)"
    by (auto split: if_splits)
  then have r: "re_search_year (b # c # d # rest) = None" using 1 by auto
  show ?case
  proof
    assume "\<exists>p y q. a # b # c # d # rest = p @ y @ q \<and> year_pattern y"
    then obtain p y q where m: "a # b # c # d # rest = p @ y @ q" and y: "year_pattern y" by blast
    show False
    proof (cases p)
      case Nil
      then have "a # b # c # d # rest = y @ q" using m by simp
      then show False using y nm by (auto simp: year_pattern_iff)
    next
      case (Cons x p')
      then have "b # c # d # rest = p' @ y @ q" using m by simp
      then show False using 1(1)[OF nm r] y by blast
    qed
  qed
qed (auto simp: year_pattern_iff Cons_eq_append_conv append_eq_Cons_conv)

lemma py_in_iff: "py_in p s \<longleftrightarrow> (\<exists>a b. s = a @ p @ b)"
proof (induction s)
  case Nil
  then show ?case by auto
next
  case (Cons c cs)
  show ?case
  proof
    assume "py_in p (c # cs)"
    then consider "starts_with (c # cs) p" | "py_in p cs" by auto
    then show "\<exists>a b. c # cs = a @ p @ b"
    proof cases
      case 1
      then obtain b where "c # cs = p @ b" by (auto simp: starts_with_iff)
      then have "c # cs = [] @ p @ b" by simp
      then show ?thesis by blast
    next
      case 2
      then obtain a b where "cs = a @ p @ b" using Cons.IH by blast
      then have "c # cs = (c # a) @ p @ b" by simp
      then show ?thesis by blast
    qed
  next
    assume "\<exists>a b. c # cs = a @ p @ b"
    then obtain a b where ab: "c # cs = a @ p @ b" by blast
    show "py_in p (c # cs)"
    proof (cases a)
      case Nil
      then have "starts_with (c # cs) p" using ab by (auto simp: starts_with_iff)
      then show ?thesis by simp
    next
      case (Cons x a')
      then have "cs = a' @ p @ b" using ab by simp
      then have "py_in p cs" using Cons.IH by blast
      then show ?thesis by simp
    qed
  qed
qed



subsection \<open>The chunk loop of one file\<close>

lemma chunks_loop_stat_ok:
  assumes "stat_size w fp = Inr sz"
  shows "fst (chunks_loop w client model fp md n ics docs tr) =
           Inr (docs @ map (\<lambda>ic. make_document w fp md n (fst ic) (snd ic)
                                (md5_hexdigest w (name fp @ chunk_suffix (fst ic) n))
                                (get_embeddings (snd ic) (embeddings_create w client fp (fst ic)) model) sz)
                           (filter (has_embeddings w client model fp) ics))"
  using assms
  by (induction ics arbitrary: docs tr) (auto simp: Let_def has_embeddings_def)

lemma chunks_loop_stat_fails:
  assumes "stat_size w fp = Inl e"
  shows "fst (chunks_loop w client model fp md n ics docs tr) =
           (if filter (has_embeddings w client model fp) ics = [] then Inr docs else Inl e)"
  using assms
  by (induction ics arbitrary: docs tr) (auto simp: Let_def has_embeddings_def)

lemma chunks_loop_result:
  assumes "fst (chunks_loop w client model fp md n ics [] tr) = Inr docs"
  shows "docs = map (\<lambda>ic. make_document w fp md n (fst ic) (snd ic)
                                (md5_hexdigest w (name fp @ chunk_suffix (fst ic) n))
                                (get_embeddings (snd ic) (embeddings_create w client fp (fst ic)) model)
                                (case stat_size w fp of Inr sz \<Rightarrow> sz | Inl e \<Rightarrow> 0))
                           (filter (has_embeddings w client model fp) ics)"
proof (cases "stat_size w fp")
  case (Inl e)
  then show ?thesis using assms chunks_loop_stat_fails[OF Inl, of client model md n ics "[]" tr]
    by (auto split: if_splits)
next
  case (Inr sz)
  then show ?thesis using assms chunks_loop_stat_ok[OF Inr, of client model md n ics "[]" tr]
    by auto
qed

text \<open>The driver runs the chunk loop on the chunks of the extracted text and collects the records file by file.\<close>

lemma process_file_Processed:
  assumes "fst (process_file w client model fp) = Processed docs"
  shows "extract_pdf_content (pdf_reader w) fp \<noteq> [] \<and>
         (fst (chunks_loop w client model fp (get_esg_metadata fp)
            (length (fst (chunk_text (tiktoken w) (extract_pdf_content (pdf_reader w) fp) 800 150)))
            (enumerate 0 (fst (chunk_text (tiktoken w) (extract_pdf_content (pdf_reader w) fp) 800 150)))
            [] [IoOpenPdf (path_str fp)]) = Inr docs)"
  using assms
  by (auto simp: process_file_def Let_def split: if_splits prod.splits sum.splits)

lemma files_loop_all_documents:
  "all_documents (files_loop w client model fps st) =
     all_documents st @
       concat (map (\<lambda>fp. case fst (process_file w client model fp) of
                             Processed docs \<Rightarrow> docs | _ \<Rightarrow> []) fps)"
  by (induction fps arbitrary: st) (auto split: prod.splits file_result.splits)

lemma sorted_index_enumerate: "sorted_wrt (<) (map (int \<circ> fst) (enumerate k xs))"
proof (induction xs arbitrary: k)
  case Nil
  then show ?case by simp
next
  case (Cons x xs)
  have "\<forall>y \<in> set (enumerate (Suc k) xs). k < fst y"
    by (auto simp: in_set_enumerate_eq)
  then show ?case using Cons.IH[of "Suc k"] by auto
qed

lemma sorted_wrt_map_filter:
  "sorted_wrt (<) (map f xs) \<Longrightarrow> sorted_wrt (<) (map f (filter P xs))"
  by (induction xs) auto

lemma make_document_sel [simp]:
  "chunk_index (make_document w fp md n i chunk did emb sz) = int i"
  "total_chunks (make_document w fp md n i chunk did emb sz) = int n"
  "doc_id (make_document w fp md n i chunk did emb sz) = did"
  "doc_content (make_document w fp md n i chunk did emb sz) = chunk"
  "content_vector (make_document w fp md n i chunk did emb sz) = emb"
  by (simp_all add: make_document_def)

lemma test_has_embeddings:
  "has_embeddings test_world test_client ''text-embedding-3-large'' test_pdf (i, c) \<longleftrightarrow> i \<noteq> 1"
  "has_embeddings rerun_world test_client ''text-embedding-3-large'' test_pdf (i, c) \<longleftrightarrow> i \<noteq> 1"
  by (simp_all add: has_embeddings_def get_embeddings_def test_world_def rerun_world_def
        test_embeddings_def test_client_def)

lemma test_get_embeddings:
  "i \<noteq> 1 \<Longrightarrow> get_embeddings c (embeddings_create test_world test_client test_pdf i)
      ''text-embedding-3-large'' = [1, 2]"
  "i \<noteq> 1 \<Longrightarrow> get_embeddings c (embeddings_create rerun_world test_client test_pdf i)
      ''text-embedding-3-large'' = [1, 2]"
  by (simp_all add: get_embeddings_def test_world_def rerun_world_def test_embeddings_def
        test_client_def)

lemma test_digest:
  "md5_hexdigest test_world (name test_pdf @ chunk_suffix 0 3) = ''md5:GRI_2023_climate_report.pdf_chunk0''"
  "md5_hexdigest test_world (name test_pdf @ chunk_suffix 2 3) = ''md5:GRI_2023_climate_report.pdf_chunk2''"
  "md5_hexdigest rerun_world = md5_hexdigest test_world"
  by (simp_all add: test_world_def rerun_world_def test_pdf_def chunk_suffix_def str_nat.simps
        digits_def)

lemma test_enumerate:
  "enumerate 0 test_chunks = [(0, ''alpha''), (1, ''beta''), (2, ''gamma'')]"
  "length test_chunks = 3"
  by (simp_all add: test_chunks_def enumerate_simps)

lemma test_run:
  "fst (chunks_loop test_world test_client ''text-embedding-3-large'' test_pdf
          (get_esg_metadata test_pdf) (length test_chunks) (enumerate 0 test_chunks) [] []) =
   Inr test_docs"
proof -
  have s: "stat_size test_world test_pdf = Inr 4096" by (simp add: test_world_def)
  show ?thesis
    unfolding chunks_loop_stat_ok[OF s] test_enumerate
    by (simp add: test_has_embeddings test_get_embeddings test_digest test_docs_def)
qed

lemma rerun_run:
  "fst (chunks_loop rerun_world test_client ''text-embedding-3-large'' test_pdf
          (get_esg_metadata test_pdf) (length test_chunks) (enumerate 0 test_chunks) [] []) =
   Inr rerun_docs"
proof -
  have s: "stat_size rerun_world test_pdf = Inr 8192" by (simp add: rerun_world_def)
  show ?thesis
    unfolding chunks_loop_stat_ok[OF s] test_enumerate
    by (simp add: test_has_embeddings test_get_embeddings test_digest rerun_docs_def)
qed

text \<open>
  C10. When the chunk loop of a file completes, every record it built has
  \<open>0 \<le> chunk_index < total_chunks\<close>, every record carries the number of chunks of the file
  as \<open>total_chunks\<close>, and the \<open>chunk_index\<close> values are strictly increasing in the order
  the records were appended.
\<close>

theorem chunk_index_invariant:
  assumes "fst (chunks_loop w client model fp md (length cs) (enumerate 0 cs) [] tr) = Inr docs"
  shows "(\<forall>d \<in> set docs. 0 \<le> chunk_index d \<and> chunk_index d < total_chunks d \<and>
                          total_chunks d = int (length cs)) \<and>
         sorted_wrt (<) (map chunk_index docs)"
proof -
  define ks where "ks = filter (has_embeddings w client model fp) (enumerate 0 cs)"
  define mk where "mk = (\<lambda>ic. make_document w fp md (length cs) (fst ic) (snd ic)
                                (md5_hexdigest w (name fp @ chunk_suffix (fst ic) (length cs)))
                                (get_embeddings (snd ic) (embeddings_create w client fp (fst ic)) model)
                                (case stat_size w fp of Inr sz \<Rightarrow> sz | Inl e \<Rightarrow> 0))"
  have r: "docs = map mk ks"
    using chunks_loop_result[OF assms] by (simp add: ks_def mk_def)
  have ks_in: "\<forall>ic \<in> set ks. fst ic < length cs"
    by (auto simp: ks_def in_set_enumerate_eq)
  have a: "\<forall>d \<in> set docs. 0 \<le> chunk_index d \<and> chunk_index d < total_chunks d \<and>
                          total_chunks d = int (length cs)"
    unfolding r using ks_in by (auto simp: mk_def)
  have m: "map chunk_index docs = map (int \<circ> fst) ks"
    unfolding r by (simp add: mk_def comp_def)
  have "sorted_wrt (<) (map (int \<circ> fst) (enumerate 0 cs))"
    by (rule sorted_index_enumerate)
  then have "sorted_wrt (<) (map (int \<circ> fst) ks)"
    unfolding ks_def by (rule sorted_wrt_map_filter)
  then have "sorted_wrt (<) (map chunk_index docs)"
    by (simp only: m)
  with a show ?thesis by (rule conjI)
qed

theorem chunk_index_invariant_witness:
  "map chunk_index test_docs = [0, 2] \<and> map total_chunks test_docs = [3, 3] \<and>
   sorted_wrt (<) (map chunk_index test_docs) \<and>
   chunk_index (test_docs ! 1) < total_chunks (test_docs ! 1)"
proof -
  have m: "test_docs ! 0 \<in> set test_docs" "test_docs ! 1 \<in> set test_docs"
    by (simp_all add: test_docs_def)
  have i: "map chunk_index test_docs = [0, 2]"
    by (simp add: test_docs_def)
  have l: "test_docs = [test_docs ! 0, test_docs ! 1]"
    by (simp add: test_docs_def)
  from chunk_index_invariant[OF test_run] m
  have t: "total_chunks (test_docs ! 0) = 3" "total_chunks (test_docs ! 1) = 3"
    "chunk_index (test_docs ! 1) < total_chunks (test_docs ! 1)"
    "sorted_wrt (<) (map chunk_index test_docs)"
    by (auto simp: test_enumerate)
  have "map total_chunks test_docs = [3, 3]"
    using t by (subst l) simp
  with i t show ?thesis by simp
qed

text \<open>
  C8. \<open>get_embeddings\<close> turns an exception of the embedding call into the empty vector. When
  the chunk loop of a file completes, the chunks with an empty embedding have no record and
  all the others have one, in order: the number of records plus the number of chunks with
  an empty embedding is the number of chunks, and no record has an empty vector.
\<close>

theorem empty_embedding_skips_chunk:
  assumes "fst (chunks_loop w client model fp md (length cs) (enumerate 0 cs) [] tr) = Inr docs"
  shows "length docs + length (filter (\<lambda>ic. \<not> has_embeddings w client model fp ic) (enumerate 0 cs))
           = length cs \<and>
         map chunk_index docs =
           map (int \<circ> fst) (filter (has_embeddings w client model fp) (enumerate 0 cs)) \<and>
         map doc_content docs =
           map snd (filter (has_embeddings w client model fp) (enumerate 0 cs)) \<and>
         (\<forall>d \<in> set docs. content_vector d \<noteq> []) \<and>
         (\<forall>i chunk e. embeddings_create w client fp i chunk model = Inl e \<longrightarrow>
            get_embeddings chunk (embeddings_create w client fp i) model = [] \<and>
            \<not> has_embeddings w client model fp (i, chunk))"
proof -
  define ks where "ks = filter (has_embeddings w client model fp) (enumerate 0 cs)"
  define mk where "mk = (\<lambda>ic. make_document w fp md (length cs) (fst ic) (snd ic)
                                (md5_hexdigest w (name fp @ chunk_suffix (fst ic) (length cs)))
                                (get_embeddings (snd ic) (embeddings_create w client fp (fst ic)) model)
                                (case stat_size w fp of Inr sz \<Rightarrow> sz | Inl e \<Rightarrow> 0))"
  have r: "docs = map mk ks"
    using chunks_loop_result[OF assms] by (simp add: ks_def mk_def)
  have "length ks + length (filter (\<lambda>ic. \<not> has_embeddings w client model fp ic) (enumerate 0 cs))
          = length (enumerate 0 cs)"
    unfolding ks_def by (rule sum_length_filter_compl)
  then have c1: "length docs + length (filter (\<lambda>ic. \<not> has_embeddings w client model fp ic) (enumerate 0 cs))
           = length cs"
    by (simp add: r)
  have c2: "map chunk_index docs = map (int \<circ> fst) ks"
    unfolding r by (simp add: mk_def comp_def)
  have c3: "map doc_content docs = map snd ks"
    unfolding r by (simp add: mk_def comp_def)
  have c4: "\<forall>d \<in> set docs. content_vector d \<noteq> []"
    unfolding r by (auto simp: mk_def ks_def has_embeddings_def)
  have c5: "\<forall>i chunk e. embeddings_create w client fp i chunk model = Inl e \<longrightarrow>
            get_embeddings chunk (embeddings_create w client fp i) model = [] \<and>
            \<not> has_embeddings w client model fp (i, chunk)"
    by (simp add: get_embeddings_def has_embeddings_def)
  show ?thesis
    using c1 c2 c3 c4 c5 unfolding ks_def by (intro conjI)
qed

theorem empty_embedding_skips_chunk_witness:
  "length test_docs + 1 = length test_chunks \<and>
   map chunk_index test_docs = [0, 2] \<and>
   map doc_content test_docs = [''alpha'', ''gamma''] \<and>
   get_embeddings ''beta'' (embeddings_create test_world test_client test_pdf 1)
     ''text-embedding-3-large'' = []"
proof -
  have e: "embeddings_create test_world test_client test_pdf 1 ''beta'' ''text-embedding-3-large''
             = Inl (Exception ''embedding failed'')"
    by (simp add: test_world_def test_embeddings_def)
  show ?thesis
    using empty_embedding_skips_chunk[OF test_run] e
    by (simp add: test_enumerate test_has_embeddings)
qed

lemma chunks_loop_doc_id:
  assumes "fst (chunks_loop w client model fp md (length cs) (enumerate 0 cs) [] tr) = Inr docs"
  shows "\<forall>d \<in> set docs.
            doc_id d = md5_hexdigest w
              (name fp @ (if total_chunks d > 1 then ''_chunk'' @ str_nat (nat (chunk_index d))
                          else ''_single'')) \<and> total_chunks d = int (length cs)"
  by (subst chunks_loop_result[OF assms]) (auto simp: chunk_suffix_def)

lemma chunks_loop_doc_ids:
  assumes "fst (chunks_loop w client model fp md (length cs) (enumerate 0 cs) [] tr) = Inr docs"
  shows "map doc_id docs =
           map (\<lambda>ic. md5_hexdigest w (name fp @ chunk_suffix (fst ic) (length cs)))
               (filter (has_embeddings w client model fp) (enumerate 0 cs))"
  by (subst chunks_loop_result[OF assms]) (simp add: comp_def)

lemma single_run:
  "fst (chunks_loop test_world test_client ''text-embedding-3-large'' test_pdf
          (get_esg_metadata test_pdf) (length [''Scope 1 emissions''])
          (enumerate 0 [''Scope 1 emissions'']) [] []) = Inr [test_doc]"
proof -
  have s: "stat_size test_world test_pdf = Inr 4096" by (simp add: test_world_def)
  have d: "md5_hexdigest test_world (name test_pdf @ chunk_suffix 0 (Suc 0)) =
             ''md5:GRI_2023_climate_report.pdf_single''"
    by (simp add: test_world_def test_pdf_def chunk_suffix_def)
  show ?thesis
    unfolding chunks_loop_stat_ok[OF s]
    by (simp add: enumerate_simps test_has_embeddings test_get_embeddings d test_doc_def)
qed

text \<open>
  C4. The identifier is a function of the file name, the chunk position and the number of
  chunks alone: the digest of the file name followed by \<open>_chunk{i}\<close> when the file has more
  than one chunk and by \<open>_single\<close> otherwise. A completed chunk loop builds one record for
  each chunk that has an embedding, in order, and the identifiers of these records are
  exactly the digests for their positions. A second run over a file of the same name and
  the same number of chunks, with any embedding service, clock, file size or chunk
  contents, computes its identifiers by the same function: the records at the same chunk
  position have the same identifier, and when the same chunks get an embedding the two
  runs give the same list of identifiers.
\<close>

theorem doc_id_deterministic:
  assumes run1: "fst (chunks_loop w client model fp md (length cs) (enumerate 0 cs) [] tr) = Inr docs"
    and run2: "fst (chunks_loop w' client' model' fp' md' (length cs') (enumerate 0 cs') [] tr') = Inr docs'"
    and same: "md5_hexdigest w' = md5_hexdigest w" "name fp' = name fp" "length cs' = length cs"
  shows "map doc_id docs =
           map (\<lambda>ic. md5_hexdigest w (name fp @ chunk_suffix (fst ic) (length cs)))
               (filter (has_embeddings w client model fp) (enumerate 0 cs)) \<and>
         map doc_id docs' =
           map (\<lambda>ic. md5_hexdigest w (name fp @ chunk_suffix (fst ic) (length cs)))
               (filter (has_embeddings w' client' model' fp') (enumerate 0 cs')) \<and>
         (\<forall>i n. chunk_suffix i n = (if n > 1 then ''_chunk'' @ str_nat i else ''_single'')) \<and>
         (map fst (filter (has_embeddings w' client' model' fp') (enumerate 0 cs')) =
          map fst (filter (has_embeddings w client model fp) (enumerate 0 cs)) \<longrightarrow>
            map doc_id docs' = map doc_id docs) \<and>
         (\<forall>d \<in> set docs.
            doc_id d = md5_hexdigest w
              (name fp @ (if total_chunks d > 1 then ''_chunk'' @ str_nat (nat (chunk_index d))
                          else ''_single''))) \<and>
         (\<forall>d \<in> set docs. \<forall>d' \<in> set docs'. chunk_index d' = chunk_index d \<longrightarrow> doc_id d' = doc_id d)"
proof -
  let ?g = "\<lambda>i. md5_hexdigest w (name fp @ chunk_suffix i (length cs))"
  let ?ks = "filter (has_embeddings w client model fp) (enumerate 0 cs)"
  let ?ks' = "filter (has_embeddings w' client' model' fp') (enumerate 0 cs')"
  have a: "map doc_id docs = map (\<lambda>ic. ?g (fst ic)) ?ks"
    by (rule chunks_loop_doc_ids[OF run1])
  have b: "map doc_id docs' = map (\<lambda>ic. ?g (fst ic)) ?ks'"
    using chunks_loop_doc_ids[OF run2] by (simp add: same)
  have c: "\<forall>i n. chunk_suffix i n = (if n > 1 then ''_chunk'' @ str_nat i else ''_single'')"
    by (simp add: chunk_suffix_def)
  have d: "map fst ?ks' = map fst ?ks \<longrightarrow> map doc_id docs' = map doc_id docs"
  proof
    assume e: "map fst ?ks' = map fst ?ks"
    have "map doc_id docs' = map ?g (map fst ?ks')" by (simp add: b comp_def)
    also have "\<dots> = map ?g (map fst ?ks)" by (simp only: e)
    also have "\<dots> = map doc_id docs" by (simp add: a comp_def)
    finally show "map doc_id docs' = map doc_id docs" .
  qed
  have e: "\<forall>d \<in> set docs.
            doc_id d = md5_hexdigest w
              (name fp @ (if total_chunks d > 1 then ''_chunk'' @ str_nat (nat (chunk_index d))
                          else ''_single''))"
    using chunks_loop_doc_id[OF run1] by blast
  have f: "\<forall>d \<in> set docs. \<forall>d' \<in> set docs'. chunk_index d' = chunk_index d \<longrightarrow> doc_id d' = doc_id d"
    using chunks_loop_doc_id[OF run1] chunks_loop_doc_id[OF run2] same by auto
  show ?thesis
    by (rule conjI[OF a conjI[OF b conjI[OF c conjI[OF d conjI[OF e f]]]]])
qed

theorem doc_id_deterministic_witness:
  "fst (chunks_loop test_world test_client ''text-embedding-3-large'' test_pdf
          (get_esg_metadata test_pdf) (length test_chunks) (enumerate 0 test_chunks) [] []) =
     Inr test_docs \<and>
   fst (chunks_loop rerun_world test_client ''text-embedding-3-large'' test_pdf
          (get_esg_metadata test_pdf) (length test_chunks) (enumerate 0 test_chunks) [] []) =
     Inr rerun_docs \<and>
   map doc_id test_docs = [''md5:GRI_2023_climate_report.pdf_chunk0'',
                           ''md5:GRI_2023_climate_report.pdf_chunk2''] \<and>
   map doc_id rerun_docs = map doc_id test_docs \<and>
   map created_date rerun_docs \<noteq> map created_date test_docs \<and>
   fst (chunks_loop test_world test_client ''text-embedding-3-large'' test_pdf
          (get_esg_metadata test_pdf) (length [''Scope 1 emissions''])
          (enumerate 0 [''Scope 1 emissions'']) [] []) = Inr [test_doc] \<and>
   map doc_id [test_doc] = [''md5:GRI_2023_climate_report.pdf_single'']"
proof -
  note T = doc_id_deterministic[OF test_run rerun_run test_digest(3) refl refl]
  note S = doc_id_deterministic[OF single_run single_run refl refl refl]
  have k: "filter (has_embeddings test_world test_client ''text-embedding-3-large'' test_pdf)
             (enumerate 0 test_chunks) = [(0, ''alpha''), (2, ''gamma'')]"
    "filter (has_embeddings rerun_world test_client ''text-embedding-3-large'' test_pdf)
             (enumerate 0 test_chunks) = [(0, ''alpha''), (2, ''gamma'')]"
    by (simp_all add: test_enumerate test_has_embeddings)
  have k1: "filter (has_embeddings test_world test_client ''text-embedding-3-large'' test_pdf)
             (enumerate 0 [''Scope 1 emissions'']) = [(0, ''Scope 1 emissions'')]"
    by (simp add: enumerate_simps test_has_embeddings)
  have d1: "md5_hexdigest test_world (name test_pdf @ ''_single'') =
             ''md5:GRI_2023_climate_report.pdf_single''"
    by (simp add: test_world_def test_pdf_def)
  have a: "map doc_id test_docs = [''md5:GRI_2023_climate_report.pdf_chunk0'',
                           ''md5:GRI_2023_climate_report.pdf_chunk2'']"
    using T unfolding k by (simp add: test_enumerate test_digest)
  have b: "map doc_id rerun_docs = map doc_id test_docs"
    using T unfolding k by blast
  have c: "map created_date rerun_docs \<noteq> map created_date test_docs"
    by (simp add: test_docs_def rerun_docs_def make_document_def test_world_def rerun_world_def)
  have s: "map doc_id [test_doc] = [''md5:GRI_2023_climate_report.pdf_single'']"
    using S d1 unfolding k1 by simp
  show ?thesis
    by (rule conjI[OF test_run conjI[OF rerun_run conjI[OF a conjI[OF b conjI[OF c
          conjI[OF single_run s]]]]]])
qed

subsection \<open>The batch upload loop\<close>

lemma batch_index_lt: "j * batch_size < length docs \<longleftrightarrow> j < total_batches docs"
  unfolding total_batches_def batch_size_def by (simp add: less_eq_div_iff_mult_less_eq) arith

lemma sent_upload_batch:
  "sent (upload_batch upload docs i st) = sent st @ [take batch_size (drop i docs)]"
  by (simp add: upload_batch_def Let_def py_slice_batch split: sum.splits)

lemma total_upload_batch:
  "total_uploaded (upload_batch upload docs i st) =
     total_uploaded st +
       (case upload (i div batch_size + 1) (take batch_size (drop i docs)) of
          Inl e \<Rightarrow> 0
        | Inr res \<Rightarrow> length (filter succeeded res))"
  by (simp add: upload_batch_def Let_def py_slice_batch split: sum.splits)

lemma upload_loop_from:
  "total_batches docs - j = m \<Longrightarrow>
   upload_loop upload docs (j * batch_size) st = st' \<Longrightarrow>
     sent st' = sent st @ map (batch_at docs) [j ..< total_batches docs] \<and>
     total_uploaded st' =
       total_uploaded st + sum_list (map (credited upload docs) [j ..< total_batches docs])"
proof (induction m arbitrary: j st st')
  case 0
  then have "\<not> j < total_batches docs" by simp
  then have "\<not> j * batch_size < length docs" by (simp add: batch_index_lt)
  then have "upload_loop upload docs (j * batch_size) st = st"
    by (subst upload_loop.simps) simp
  then show ?case using 0 by simp
next
  case (Suc m)
  then have lt: "j < total_batches docs" by simp
  then have i: "j * batch_size < length docs" by (simp add: batch_index_lt)
  have bn: "j * batch_size div batch_size + 1 = j + 1" by (simp add: batch_size_def)
  define st1 where "st1 = upload_batch upload docs (j * batch_size) st"
  have step: "upload_loop upload docs (j * batch_size) st =
              upload_loop upload docs (Suc j * batch_size) st1"
    using i by (subst upload_loop.simps) (simp add: st1_def add.commute)
  have s1: "sent st1 = sent st @ [batch_at docs j]"
    by (simp add: st1_def sent_upload_batch batch_at_def)
  have t1: "total_uploaded st1 = total_uploaded st + credited upload docs j"
    unfolding st1_def total_upload_batch bn credited_def batch_at_def by simp
  have m: "total_batches docs - Suc j = m" using Suc.prems(1) by simp
  from Suc.prems(2) step have "upload_loop upload docs (Suc j * batch_size) st1 = st'" by simp
  from Suc.IH[OF m this] show ?case
    using lt by (simp add: s1 t1 upt_conv_Cons)
qed

lemma concat_batches_from:
  "total_batches docs - j = m \<Longrightarrow>
   concat (map (batch_at docs) [j ..< total_batches docs]) = drop (j * batch_size) docs"
proof (induction m arbitrary: j)
  case 0
  then have "\<not> j * batch_size < length docs" by (simp add: batch_index_lt)
  then show ?case using 0 by simp
next
  case (Suc m)
  then have lt: "j < total_batches docs" by simp
  have m: "total_batches docs - Suc j = m" using Suc.prems by simp
  have "take batch_size (drop (j * batch_size) docs) @ drop (batch_size + j * batch_size) docs
          = drop (j * batch_size) docs"
    by (metis append_take_drop_id drop_drop)
  then show ?case using Suc.IH[OF m] lt by (simp add: upt_conv_Cons batch_at_def)
qed

lemma batch_at_length:
  "k < total_batches docs \<Longrightarrow> 0 < length (batch_at docs k) \<and> length (batch_at docs k) \<le> batch_size"
  using batch_index_lt[of k docs] by (simp add: batch_at_def batch_size_def)

text \<open>
  C6. The upload loop hands the records to the service in order, in consecutive batches of
  \<open>batch_size = 5\<close> (the last one may be shorter, none is empty), batch \<open>k\<close> with batch
  number \<open>k + 1\<close>. Each batch adds to \<open>total_uploaded\<close> the number of results the service
  reports as succeeded, and nothing when the call raises; the loop then goes on with the
  next batch, so the total is the sum over all batches.
\<close>

theorem upload_loop_accounting:
  "sent (upload_loop upload docs 0 \<lparr>total_uploaded = 0, sent = [], printed = []\<rparr>) =
     map (\<lambda>k. take batch_size (drop (k * batch_size) docs))
         [0 ..< (length docs + batch_size - 1) div batch_size] \<and>
   concat (sent (upload_loop upload docs 0 \<lparr>total_uploaded = 0, sent = [], printed = []\<rparr>)) = docs \<and>
   (\<forall>b \<in> set (sent (upload_loop upload docs 0 \<lparr>total_uploaded = 0, sent = [], printed = []\<rparr>)).
      0 < length b \<and> length b \<le> batch_size) \<and>
   total_uploaded (upload_loop upload docs 0 \<lparr>total_uploaded = 0, sent = [], printed = []\<rparr>) =
     sum_list (map (\<lambda>k. case upload (k + 1) (take batch_size (drop (k * batch_size) docs)) of
                           Inl e \<Rightarrow> 0
                         | Inr res \<Rightarrow> length (filter succeeded res))
                   [0 ..< (length docs + batch_size - 1) div batch_size]) \<and>
   batch_size = 5"
proof -
  define up where "up = upload_loop upload docs 0 \<lparr>total_uploaded = 0, sent = [], printed = []\<rparr>"
  have "upload_loop upload docs (0 * batch_size) \<lparr>total_uploaded = 0, sent = [], printed = []\<rparr> = up"
    by (simp add: up_def)
  from upload_loop_from[OF refl this]
  have s: "sent up = map (batch_at docs) [0 ..< total_batches docs]"
    and t: "total_uploaded up = sum_list (map (credited upload docs) [0 ..< total_batches docs])"
    by simp_all
  have c: "concat (sent up) = docs"
    using concat_batches_from[OF refl, of docs 0] by (simp add: s)
  have l: "\<forall>b \<in> set (sent up). 0 < length b \<and> length b \<le> batch_size"
    unfolding s using batch_at_length[of _ docs] by auto
  have s': "sent up = map (\<lambda>k. take batch_size (drop (k * batch_size) docs))
         [0 ..< (length docs + batch_size - 1) div batch_size]"
    unfolding s total_batches_def batch_at_def ..
  have t': "total_uploaded up =
     sum_list (map (\<lambda>k. case upload (k + 1) (take batch_size (drop (k * batch_size) docs)) of
                           Inl e \<Rightarrow> 0
                         | Inr res \<Rightarrow> length (filter succeeded res))
                   [0 ..< (length docs + batch_size - 1) div batch_size])"
    unfolding t total_batches_def batch_at_def credited_def ..
  show ?thesis
    unfolding up_def[symmetric] using s' c l t' batch_size_def by (intro conjI)
qed

theorem upload_loop_accounting_witness:
  "total_uploaded (upload_loop partial_upload (replicate 12 test_doc) 0
                     \<lparr>total_uploaded = 0, sent = [], printed = []\<rparr>) = 5 \<and>
   map length (sent (upload_loop partial_upload (replicate 12 test_doc) 0
                     \<lparr>total_uploaded = 0, sent = [], printed = []\<rparr>)) = [5, 5, 2]"
proof -
  have n: "(length (replicate 12 test_doc) + batch_size - 1) div batch_size = 3"
    by (simp add: batch_size_def)
  have u: "[0 ..< 3] = [0, 1, 2::nat]"
    by code_simp
  show ?thesis
    using upload_loop_accounting[of partial_upload "replicate 12 test_doc"]
    unfolding n u
    by (simp add: batch_size_def partial_upload_def)
qed

subsection \<open>The driver\<close>

lemma make_document_getenv:
  "make_document (w\<lparr>getenv := g\<rparr>) fp md n i chunk did emb sz = make_document w fp md n i chunk did emb sz"
  by (simp add: make_document_def)

lemma chunks_loop_getenv:
  "chunks_loop (w\<lparr>getenv := g\<rparr>) client model fp md n ics docs tr =
   chunks_loop w client model fp md n ics docs tr"
  by (induction ics arbitrary: docs tr) (auto simp: Let_def make_document_getenv split: sum.splits)

lemma process_file_getenv:
  "process_file (w\<lparr>getenv := g\<rparr>) client model fp = process_file w client model fp"
  by (simp add: process_file_def chunks_loop_getenv Let_def)

lemma files_loop_getenv:
  "files_loop (w\<lparr>getenv := g\<rparr>) client model fps st = files_loop w client model fps st"
  by (induction fps arbitrary: st) (simp_all add: process_file_getenv)

lemma missing_vars_other:
  "var \<notin> set required_vars \<Longrightarrow> missing_vars (env(var := v)) = missing_vars env"
  unfolding missing_vars_def by (rule filter_cong) auto

lemma main_getenv_other:
  assumes "var \<notin> set required_vars"
    and "getenv_default (env(var := v)) ''AZURE_OPENAI_API_VERSION'' ''2024-02-01'' =
         getenv_default env ''AZURE_OPENAI_API_VERSION'' ''2024-02-01''"
    and "getenv_default (env(var := v)) ''AZURE_OPENAI_EMBEDDINGS_DEPLOYMENT_NAME'' ''text-embedding-3-large'' =
         getenv_default env ''AZURE_OPENAI_EMBEDDINGS_DEPLOYMENT_NAME'' ''text-embedding-3-large''"
    and "getenv w = env"
  shows "main (w\<lparr>getenv := env(var := v)\<rparr>) = main w"
proof -
  have r: "(env(var := v)) ''AZURE_SEARCH_ENDPOINT'' = env ''AZURE_SEARCH_ENDPOINT''"
      "(env(var := v)) ''AZURE_SEARCH_KEY'' = env ''AZURE_SEARCH_KEY''"
      "(env(var := v)) ''AZURE_OPENAI_EMBEDDINGS_ENDPOINT'' = env ''AZURE_OPENAI_EMBEDDINGS_ENDPOINT''"
      "(env(var := v)) ''AZURE_OPENAI_EMBEDDINGS_API_KEY'' = env ''AZURE_OPENAI_EMBEDDINGS_API_KEY''"
    using assms(1) by (auto simp: required_vars_def)
  show ?thesis
    unfolding main_def
    by (simp add: missing_vars_other[OF assms(1)] assms(2,3,4) r files_loop_getenv Let_def
             del: fun_upd_apply)
qed

lemma test_missing: "missing_vars test_env = []"
  by (simp add: missing_vars_def required_vars_def test_env_def)

lemma test_extract: "extract_pdf_content (pdf_reader test_world) test_pdf = ''Scope 1 emissions''"
  by (simp add: extract_pdf_content_def test_world_def str_eval)

lemma test_chunk_text: "fst (chunk_text char_tokenizer ''Scope 1 emissions'' 800 150) = [''Scope 1 emissions'']"
  by (simp add: chunk_text_def chunk_body_def char_tokenizer_def)



lemma test_process:
  "\<exists>d. process_file test_world test_client ''text-embedding-3-large'' test_pdf =
     (Processed [d], [IoOpenPdf ''ESG_docs/GRI_2023_climate_report.pdf'',
               IoEmbeddings ''ESG_docs/GRI_2023_climate_report.pdf'' 0,
               IoStat ''ESG_docs/GRI_2023_climate_report.pdf''])"
  apply (simp add: process_file_def test_extract Let_def)
  apply (simp add: test_chunk_text test_world_def enumerate_simps Let_def get_embeddings_def
       test_embeddings_def test_client_def test_pdf_def)
  done

lemma test_upload_one:
  "total_uploaded (upload_loop (test_upload sc) [d] 0 \<lparr>total_uploaded = 0, sent = [], printed = []\<rparr>) = 1
   \<and> length (sent (upload_loop (test_upload sc) [d] 0 \<lparr>total_uploaded = 0, sent = [], printed = []\<rparr>)) = 1"
  apply (subst upload_loop.simps, simp)
  apply (subst upload_loop.simps, simp add: batch_size_def)
  apply (subst upload_loop.simps, simp)
  apply (subst upload_loop.simps, simp add: batch_size_def)
  apply (simp add: upload_batch_def Let_def py_slice_def py_bound_def test_upload_def batch_size_def)
  done

lemma test_main:
  "main test_world =
     \<lparr>outcome = UploadCompleted \<lparr>files_processed = 1, files_found = 1,
                                  chunks_uploaded = 1, chunks_total = 1\<rparr>,
      calls = [IoDirExists, IoGlob, IoOpenPdf ''ESG_docs/GRI_2023_climate_report.pdf'',
               IoEmbeddings ''ESG_docs/GRI_2023_climate_report.pdf'' 0,
               IoStat ''ESG_docs/GRI_2023_climate_report.pdf'', IoUpload 1]\<rparr>"
proof -
  obtain d where p: "process_file test_world test_client ''text-embedding-3-large'' test_pdf =
     (Processed [d], [IoOpenPdf ''ESG_docs/GRI_2023_climate_report.pdf'',
               IoEmbeddings ''ESG_docs/GRI_2023_climate_report.pdf'' 0,
               IoStat ''ESG_docs/GRI_2023_climate_report.pdf''])"
    using test_process by blast
  have e: "getenv test_world = test_env" "dir_exists test_world" "glob_pdf test_world = [test_pdf]"
    "upload_documents test_world = test_upload"
    by (simp_all add: test_world_def)
  have c: "\<lparr>azure_endpoint = test_env ''AZURE_OPENAI_EMBEDDINGS_ENDPOINT'',
                   api_key = test_env ''AZURE_OPENAI_EMBEDDINGS_API_KEY'',
                   api_version = getenv_default test_env ''AZURE_OPENAI_API_VERSION'' ''2024-02-01''\<rparr>
           = test_client"
    by (simp add: test_client_def test_env_def getenv_default_def)
  have m: "getenv_default test_env ''AZURE_OPENAI_EMBEDDINGS_DEPLOYMENT_NAME'' ''text-embedding-3-large''
            = ''text-embedding-3-large''"
    by (simp add: test_env_def getenv_default_def)
  show ?thesis
    unfolding main_def Let_def
    by (simp add: e test_missing c m p test_upload_one)
qed

text \<open>
  C7, amended. The required values are the four of \<open>required_vars\<close>: index endpoint, index
  key, embedding endpoint and embedding key. When one of them is unset or empty, \<open>main\<close>
  reports exactly the missing ones of the four and makes no call at all, so no file is
  touched. When none is missing, the run is never ended for missing configuration and goes
  on to the file system. The embedding deployment name and the API version are not
  required: a run where one is unset is the run where it is set to its default,
  \<open>text-embedding-3-large\<close> and \<open>2024-02-01\<close>.
\<close>

theorem main_missing_environment:
  "(missing_vars (getenv w) \<noteq> [] \<longrightarrow>
      main w = \<lparr>outcome = MissingEnvironment (missing_vars (getenv w)), calls = []\<rparr>) \<and>
   set (missing_vars (getenv w)) =
     {var \<in> set required_vars. getenv w var = None \<or> getenv w var = Some []} \<and>
   (missing_vars (getenv w) = [] \<longrightarrow>
      (\<forall>m. outcome (main w) \<noteq> MissingEnvironment m) \<and> calls (main w) \<noteq> []) \<and>
   (getenv w ''AZURE_OPENAI_EMBEDDINGS_DEPLOYMENT_NAME'' = None \<longrightarrow>
      main w = main (w\<lparr>getenv := (getenv w)(''AZURE_OPENAI_EMBEDDINGS_DEPLOYMENT_NAME'' \<mapsto>
                                                  ''text-embedding-3-large'')\<rparr>)) \<and>
   (getenv w ''AZURE_OPENAI_API_VERSION'' = None \<longrightarrow>
      main w = main (w\<lparr>getenv := (getenv w)(''AZURE_OPENAI_API_VERSION'' \<mapsto> ''2024-02-01'')\<rparr>))"
proof (intro conjI impI)
  assume "missing_vars (getenv w) \<noteq> []"
  then show "main w = \<lparr>outcome = MissingEnvironment (missing_vars (getenv w)), calls = []\<rparr>"
    by (simp add: main_def)
next
  show "set (missing_vars (getenv w)) =
     {var \<in> set required_vars. getenv w var = None \<or> getenv w var = Some []}"
    by (auto simp: missing_vars_def)
next
  assume m: "missing_vars (getenv w) = []"
  show "\<forall>m. outcome (main w) \<noteq> MissingEnvironment m"
    using m by (simp add: main_def Let_def)
  have t: "trace (files_loop w client model fps st) \<noteq> []" if "trace st \<noteq> []"
    for client model fps and st :: "'b run_state"
    using that by (induction fps arbitrary: st) (auto split: prod.splits file_result.splits)
  show "calls (main w) \<noteq> []"
    using m by (simp add: main_def Let_def t)
next
  assume "getenv w ''AZURE_OPENAI_EMBEDDINGS_DEPLOYMENT_NAME'' = None"
  then show "main w = main (w\<lparr>getenv := (getenv w)(''AZURE_OPENAI_EMBEDDINGS_DEPLOYMENT_NAME'' \<mapsto>
                                                  ''text-embedding-3-large'')\<rparr>)"
    by (subst main_getenv_other[where env = "getenv w"])
       (simp_all add: required_vars_def getenv_default_def)
next
  assume "getenv w ''AZURE_OPENAI_API_VERSION'' = None"
  then show "main w = main (w\<lparr>getenv := (getenv w)(''AZURE_OPENAI_API_VERSION'' \<mapsto> ''2024-02-01'')\<rparr>)"
    by (subst main_getenv_other[where env = "getenv w"])
       (simp_all add: required_vars_def getenv_default_def)
qed

theorem main_missing_environment_witness:
  "main missing_key_world =
     \<lparr>outcome = MissingEnvironment [''AZURE_SEARCH_KEY'', ''AZURE_OPENAI_EMBEDDINGS_API_KEY''],
      calls = []\<rparr> \<and>
   main test_world =
     main (test_world\<lparr>getenv := test_env(''AZURE_OPENAI_EMBEDDINGS_DEPLOYMENT_NAME'' \<mapsto>
                                            ''text-embedding-3-large'')\<rparr>) \<and>
   main test_world =
     main (test_world\<lparr>getenv := test_env(''AZURE_OPENAI_API_VERSION'' \<mapsto> ''2024-02-01'')\<rparr>) \<and>
   calls (main test_world) \<noteq> []"
proof -
  have m: "missing_vars (getenv missing_key_world) =
             [''AZURE_SEARCH_KEY'', ''AZURE_OPENAI_EMBEDDINGS_API_KEY'']"
    by (simp add: missing_key_world_def missing_vars_def required_vars_def test_env_def)
  have g: "getenv test_world = test_env"
    by (simp add: test_world_def)
  have n: "test_env ''AZURE_OPENAI_EMBEDDINGS_DEPLOYMENT_NAME'' = None"
    "test_env ''AZURE_OPENAI_API_VERSION'' = None"
    by (simp_all add: test_env_def)
  note A = main_missing_environment[of missing_key_world, unfolded m]
  note B = main_missing_environment[of test_world, unfolded g test_missing]
  have a: "main missing_key_world =
     \<lparr>outcome = MissingEnvironment [''AZURE_SEARCH_KEY'', ''AZURE_OPENAI_EMBEDDINGS_API_KEY''],
      calls = []\<rparr>"
    using A by blast
  have b1: "main test_world =
     main (test_world\<lparr>getenv := test_env(''AZURE_OPENAI_EMBEDDINGS_DEPLOYMENT_NAME'' \<mapsto>
                                            ''text-embedding-3-large'')\<rparr>)"
    using B n by blast
  have b2: "main test_world =
     main (test_world\<lparr>getenv := test_env(''AZURE_OPENAI_API_VERSION'' \<mapsto> ''2024-02-01'')\<rparr>)"
    using B n by blast
  have b3: "calls (main test_world) \<noteq> []"
    using B by blast
  show ?thesis
    by (rule conjI[OF a conjI[OF b1 conjI[OF b2 b3]]])
qed

text \<open>
  The claim as stated fails: in \<open>test_world\<close> neither the deployment name nor the API
  version is set, and the run opens the file, embeds, uploads and completes.
\<close>

theorem main_defaults_counterexample:
  "getenv test_world ''AZURE_OPENAI_EMBEDDINGS_DEPLOYMENT_NAME'' = None \<and>
   getenv test_world ''AZURE_OPENAI_API_VERSION'' = None \<and>
   main test_world =
     \<lparr>outcome = UploadCompleted \<lparr>files_processed = 1, files_found = 1,
                                  chunks_uploaded = 1, chunks_total = 1\<rparr>,
      calls = [IoDirExists, IoGlob, IoOpenPdf ''ESG_docs/GRI_2023_climate_report.pdf'',
               IoEmbeddings ''ESG_docs/GRI_2023_climate_report.pdf'' 0,
               IoStat ''ESG_docs/GRI_2023_climate_report.pdf'', IoUpload 1]\<rparr>"
  using test_main by (simp add: test_world_def test_env_def)

end
